theory Spec2Isabelle
  imports Main
begin

section \<open>Strings\<close>

text \<open>
  A JavaScript string is a sequence of UTF-16 code units. The model uses HOL strings,
  whose characters are the code units below 256 (ASCII and Latin-1); every name, key and
  label of the option tree lies in that range (the section sign of the label of
  \<open>showFilePrefix\<close> is code unit 0xA7).
\<close>

definition toLowerCaseChar :: "char \<Rightarrow> char" where
  "toLowerCaseChar c =
     (let n = (of_char c :: nat) in
      if (65 \<le> n \<and> n \<le> 90) \<or> (192 \<le> n \<and> n \<le> 222 \<and> n \<noteq> 215)
      then char_of (n + 32) else c)"

definition toLowerCase :: "string \<Rightarrow> string" where
  "toLowerCase s = map toLowerCaseChar s"

text \<open>\<open>s.startsWith(p)\<close> and \<open>s.includes(t)\<close> (named \<open>str_includes\<close>).\<close>

fun startsWith :: "string \<Rightarrow> string \<Rightarrow> bool" where
  "startsWith s [] = True"
| "startsWith [] (p # ps) = False"
| "startsWith (c # cs) (p # ps) = (c = p \<and> startsWith cs ps)"

fun str_includes :: "string \<Rightarrow> string \<Rightarrow> bool" where
  "str_includes [] t = (t = [])"
| "str_includes (c # cs) t = (startsWith (c # cs) t \<or> str_includes cs t)"

text \<open>
  \<open>s.trim()\<close> removes white space and line terminators from both ends; among the code
  units below 256 these are TAB, LF, VT, FF, CR, SPACE and NBSP.
\<close>

definition isWhiteSpace :: "char \<Rightarrow> bool" where
  "isWhiteSpace c =
     (let n = (of_char c :: nat) in (9 \<le> n \<and> n \<le> 13) \<or> n = 32 \<or> n = 160)"

definition trim :: "string \<Rightarrow> string" where
  "trim s = rev (dropWhile isWhiteSpace (rev (dropWhile isWhiteSpace s)))"

section \<open>The option tree (components/OutputOptions.tsx)\<close>

text \<open>
  \<open>type OptionItem = RegularOptionKey | string | { name: string; children: OptionItem[] }\<close>:
  a leaf is a key (a string), a group has a name and children.
\<close>

datatype OptionItem = Leaf string | Group string "OptionItem list"

definition symbolKindLabels :: "(string \<times> string) list" where
  "symbolKindLabels =
     [(''class'', ''Classes''),
      (''interface'', ''Interfaces''),
      (''function'', ''Functions''),
      (''method'', ''Methods''),
      (''constructor'', ''Constructors''),
      (''variable'', ''Variables''),
      (''property'', ''Properties''),
      (''enum'', ''Enums''),
      (''enum_member'', ''Enum Members''),
      (''type_alias'', ''Type Aliases''),
      (''module'', ''Modules''),
      (''react_component'', ''React Components''),
      (''styled_component'', ''Styled Components''),
      (''jsx_element'', ''JSX Elements''),
      (''css_class'', ''CSS Classes''),
      (''css_id'', ''CSS IDs''),
      (''css_tag'', ''CSS Tags''),
      (''css_at_rule'', ''CSS At-Rules''),
      (''css_variable'', ''CSS Variables''),
      (''go_package'', ''Go Packages''),
      (''rust_struct'', ''Rust Structs''),
      (''rust_trait'', ''Rust Traits''),
      (''rust_impl'', ''Rust Impls'')]"

definition tsDeclarationKinds :: "string list" where
  "tsDeclarationKinds =
     [''class'', ''interface'', ''function'', ''variable'', ''enum'', ''type_alias'', ''module'']"

definition tsMemberKinds :: "string list" where
  "tsMemberKinds = [''method'', ''constructor'', ''property'', ''enum_member'']"

definition reactKinds :: "string list" where
  "reactKinds = [''react_component'', ''styled_component'', ''jsx_element'']"

definition cssKinds :: "string list" where
  "cssKinds = [''css_class'', ''css_id'', ''css_tag'', ''css_at_rule'', ''css_variable'']"

definition goKinds :: "string list" where
  "goKinds = [''go_package'']"

definition rustKinds :: "string list" where
  "rustKinds = [''rust_struct'', ''rust_trait'', ''rust_impl'']"

definition toFilter :: "string \<Rightarrow> OptionItem" where
  "toFilter kind = Leaf (''filter:'' @ kind)"

definition symbolVisibilityTree :: OptionItem where
  "symbolVisibilityTree =
     Group ''Symbol Visibility''
       [Group ''TypeScript/JavaScript''
          [Group ''Declarations'' (map toFilter tsDeclarationKinds),
           Group ''Members'' (map toFilter tsMemberKinds)],
        Group ''React'' (map toFilter reactKinds),
        Group ''CSS'' (map toFilter cssKinds),
        Group ''Other Languages''
          [Group ''Go'' (map toFilter goKinds),
           Group ''Rust'' (map toFilter rustKinds)]]"

definition optionTree :: "OptionItem list" where
  "optionTree =
     [Group ''Display Elements''
        [Leaf ''showIcons'',
         Group ''Indicators'' [Leaf ''showExportedIndicator'', Leaf ''showPrivateIndicator''],
         Leaf ''showModifiers'',
         Leaf ''showTags'',
         Group ''Identifiers'' [Leaf ''showFilePrefix'', Leaf ''showFileIds'', Leaf ''showSymbolIds'']],
      Group ''Relationships'' [Leaf ''showOutgoing'', Leaf ''showIncoming''],
      Group ''Structure'' [Leaf ''groupMembers'', Leaf ''showOnlyExports''],
      symbolVisibilityTree]"

text \<open>
  \<open>optionLabels = { ...symbolKindLabels, showIcons: 'Icons', ... }\<close>: an object literal, a
  later property overriding an earlier one of the same name.
\<close>

definition optionLabels :: "string \<rightharpoonup> string" where
  "optionLabels =
     map_of symbolKindLabels ++
     map_of
       [(''showIcons'', ''Icons''),
        (''showExportedIndicator'', ''Exported (+)''),
        (''showPrivateIndicator'', ''Private (-)''),
        (''showModifiers'', ''Modifiers''),
        (''showTags'', ''Tags''),
        (''showSymbolIds'', ''Symbol IDs''),
        (''showFilePrefix'', ''File Prefix ('' @ [char_of (167 :: nat)] @ '')''),
        (''showFileIds'', ''File IDs''),
        (''showOutgoing'', ''Outgoing''),
        (''showIncoming'', ''Incoming''),
        (''groupMembers'', ''Group Members''),
        (''showOnlyExports'', ''Show Only Exports'')]"

text \<open>\<open>getAllKeys\<close>: the leaf keys of an item, in pre-order.\<close>

fun getAllKeys :: "OptionItem \<Rightarrow> string list" where
  "getAllKeys (Leaf item) = [item]"
| "getAllKeys (Group name children) = concat (map getAllKeys children)"

text \<open>\<open>getAllGroupNames\<close>: the names of all groups of a forest, in pre-order.\<close>

fun getAllGroupNames :: "OptionItem list \<Rightarrow> string list"
  and groupNamesOf :: "OptionItem \<Rightarrow> string list" where
  "getAllGroupNames items = concat (map groupNamesOf items)"
| "groupNamesOf (Leaf item) = []"
| "groupNamesOf (Group name children) = name # getAllGroupNames children"

text \<open>
  The search of \<open>filteredOptionTree\<close>. \<open>filter\<close> is the inner function; its argument
  \<open>lowerCaseSearchTerm\<close> is the variable it closes over. \<open>optionLabels[item] || item\<close> takes
  the key itself when the table has no entry for it (or an empty one).
\<close>

definition filterLabel :: "string \<Rightarrow> string" where
  "filterLabel item =
     (case optionLabels item of
        None \<Rightarrow> item
      | Some l \<Rightarrow> if l = [] then item else l)"

primrec dropNulls :: "'a option list \<Rightarrow> 'a list" where
  "dropNulls [] = []"
| "dropNulls (x # xs) = (case x of None \<Rightarrow> dropNulls xs | Some y \<Rightarrow> y # dropNulls xs)"

fun filter_item :: "string \<Rightarrow> OptionItem \<Rightarrow> OptionItem option" where
  "filter_item lowerCaseSearchTerm (Leaf item) =
     (if str_includes (toLowerCase (filterLabel item)) lowerCaseSearchTerm
      then Some (Leaf item) else None)"
| "filter_item lowerCaseSearchTerm (Group name children) =
     (if str_includes (toLowerCase name) lowerCaseSearchTerm
      then Some (Group name children)
      else
        (let filteredChildren = dropNulls (map (filter_item lowerCaseSearchTerm) children)
         in if length filteredChildren > 0 then Some (Group name filteredChildren) else None))"

text \<open>
  \<open>filteredOptionTree\<close>, with the tree it searches as its first argument (the component
  searches the constant \<open>optionTree\<close>).
\<close>

definition filteredOptionTree :: "OptionItem list \<Rightarrow> string \<Rightarrow> OptionItem list" where
  "filteredOptionTree tree searchTerm =
     (if trim searchTerm = [] then tree
      else dropNulls (map (filter_item (toLowerCase searchTerm)) tree))"

definition allFilteredGroupNames :: "OptionItem list \<Rightarrow> string \<Rightarrow> string list" where
  "allFilteredGroupNames tree searchTerm = getAllGroupNames (filteredOptionTree tree searchTerm)"

text \<open>
  The label \<open>renderItem\<close> prints beside a leaf: \<open>optionLabels[labelKey] ?? labelKey\<close>, with
  \<open>labelKey\<close> the symbol kind for a filter key and the key itself otherwise.
\<close>

definition displayLabel :: "string \<Rightarrow> string" where
  "displayLabel key =
     (let isFilter = startsWith key ''filter:'';
          labelKey = (if isFilter then drop (length ''filter:'') key else key)
      in case optionLabels labelKey of None \<Rightarrow> labelKey | Some l \<Rightarrow> l)"

text \<open>
  \<open>leafUnder items names key\<close>: the forest \<open>items\<close> has the leaf \<open>key\<close> below the chain of
  groups \<open>names\<close>, outermost first; these groups are the ancestors of the leaf.
\<close>

fun leafUnder :: "OptionItem list \<Rightarrow> string list \<Rightarrow> string \<Rightarrow> bool" where
  "leafUnder items [] key = (Leaf key \<in> set items)"
| "leafUnder items (name # names) key =
     list_ex
       (\<lambda>item. case item of
                 Leaf k \<Rightarrow> False
               | Group n children \<Rightarrow> n = name \<and> leafUnder children names key)
       items"

section \<open>The options and their edits (components/OutputOptions.tsx)\<close>

text \<open>
  \<open>FormattingOptions\<close> is an object with the optional properties \<open>preset\<close>,
  \<open>displayFilters\<close> and one boolean per \<open>RegularOptionKey\<close> (every property name but
  \<open>preset\<close> and \<open>displayFilters\<close>). \<open>flags\<close> holds the latter, by name; \<open>None\<close> is a
  property that is absent or \<open>undefined\<close>, which \<open>??\<close> and \<open>Object.hasOwn\<close> treat alike for
  the values the component writes.
\<close>

datatype FormattingPreset = Minimal | Compact | Default | Detailed | Verbose

record FormattingOptions =
  preset :: "FormattingPreset option"
  flags :: "string \<rightharpoonup> bool"
  displayFilters :: "(string \<rightharpoonup> bool) option"

text \<open>The argument of \<open>onCheckedChange\<close>: \<open>boolean | 'indeterminate'\<close>.\<close>

datatype CheckedState = Checked bool | Indeterminate

text \<open>
  \<open>isSelected\<close> is the \<open>checked\<close> value \<open>renderItem\<close> gives the checkbox of a leaf;
  \<open>key.substring('filter:'.length)\<close> drops the seven characters of the prefix.
\<close>

definition isSelected :: "FormattingOptions \<Rightarrow> string \<Rightarrow> bool" where
  "isSelected options key =
     (let isFilter = startsWith key ''filter:'' in
      if isFilter then
        (case displayFilters options of
           None \<Rightarrow> True
         | Some df \<Rightarrow> (case df (drop (length ''filter:'') key) of None \<Rightarrow> True | Some b \<Rightarrow> b))
      else (case flags options key of None \<Rightarrow> True | Some b \<Rightarrow> b))"

text \<open>\<open>allChecked\<close>, the value \<open>renderItem\<close> gives the checkbox of a group.\<close>

definition allChecked :: "FormattingOptions \<Rightarrow> OptionItem \<Rightarrow> bool" where
  "allChecked options item =
     list_all
       (\<lambda>key.
          if startsWith key ''filter:'' then
            (let kind = drop (length ''filter:'') key in
             case displayFilters options of
               None \<Rightarrow> True
             | Some df \<Rightarrow> (case df kind of None \<Rightarrow> True | Some b \<Rightarrow> b))
          else (case flags options key of None \<Rightarrow> True | Some b \<Rightarrow> b))
       (getAllKeys item)"

text \<open>The leaf keys under an item, as a set: what the group's checkbox summarises.\<close>

fun leafKeys :: "OptionItem \<Rightarrow> string set" where
  "leafKeys (Leaf item) = {item}"
| "leafKeys (Group name children) = (\<Union> (leafKeys ` set children))"

text \<open>\<open>handleChange\<close>: the edit of one key, as the updater it passes to \<open>setOptions\<close>.\<close>

definition handleChange :: "string \<Rightarrow> CheckedState \<Rightarrow> FormattingOptions \<Rightarrow> FormattingOptions" where
  "handleChange optionKey checked prev =
     (let isChecked = (checked = Checked True) in
      if startsWith optionKey ''filter:'' then
        (let kind = drop (length ''filter:'') optionKey in
         prev\<lparr>preset := None,
              displayFilters :=
                Some ((case displayFilters prev of None \<Rightarrow> Map.empty | Some df \<Rightarrow> df)
                        (kind \<mapsto> isChecked))\<rparr>)
      else prev\<lparr>preset := None, flags := (flags prev)(optionKey \<mapsto> isChecked)\<rparr>)"

text \<open>
  \<open>handleGroupChange\<close>: the edit of a list of keys in one update. \<open>groupLoop\<close> is its
  \<open>for (const key of keys)\<close>, over the pair \<open>(newOptions, newDisplayFilters)\<close>.
\<close>

primrec groupLoop ::
  "bool \<Rightarrow> string list \<Rightarrow> FormattingOptions \<times> (string \<rightharpoonup> bool) \<Rightarrow>
   FormattingOptions \<times> (string \<rightharpoonup> bool)" where
  "groupLoop isChecked [] acc = acc"
| "groupLoop isChecked (key # keys) acc =
     groupLoop isChecked keys
       (if startsWith key ''filter:''
        then (fst acc, (snd acc)(drop (length ''filter:'') key \<mapsto> isChecked))
        else ((fst acc)\<lparr>flags := (flags (fst acc))(key \<mapsto> isChecked)\<rparr>, snd acc))"

definition handleGroupChange ::
  "string list \<Rightarrow> CheckedState \<Rightarrow> FormattingOptions \<Rightarrow> FormattingOptions" where
  "handleGroupChange keys checked prev =
     (let isChecked = (checked = Checked True);
          newOptions = prev\<lparr>preset := None\<rparr>;
          newDisplayFilters = (case displayFilters prev of None \<Rightarrow> Map.empty | Some df \<Rightarrow> df);
          looped = groupLoop isChecked keys (newOptions, newDisplayFilters)
      in (fst looped)\<lparr>displayFilters := Some (snd looped)\<rparr>)"

text \<open>The entry the options hold for a symbol kind, if any.\<close>

definition filterEntry :: "FormattingOptions \<Rightarrow> string \<Rightarrow> bool option" where
  "filterEntry options kind =
     (case displayFilters options of None \<Rightarrow> None | Some df \<Rightarrow> df kind)"

section \<open>Token impact (components/OutputOptions.tsx)\<close>

text \<open>
  \<open>FormattingOptionsTokenImpact\<close> is a type of the analyzer's library; the component reads
  its optional tables \<open>options\<close> and \<open>displayFilters\<close>, of numbers by key. The numbers are
  token counts: integers, which JavaScript's numbers add exactly.
\<close>

record FormattingOptionsTokenImpact =
  impactOptions :: "(string \<rightharpoonup> int) option"
  impactDisplayFilters :: "(string \<rightharpoonup> int) option"

text \<open>The \<open>impact\<close> that \<open>renderItem\<close> shows beside a leaf (\<open>None\<close> is \<open>undefined\<close>).\<close>

definition leafImpact :: "FormattingOptionsTokenImpact \<Rightarrow> string \<Rightarrow> int option" where
  "leafImpact tokenImpact key =
     (if startsWith key ''filter:'' then
        (case impactDisplayFilters tokenImpact of
           None \<Rightarrow> None
         | Some df \<Rightarrow> df (drop (length ''filter:'') key))
      else (case impactOptions tokenImpact of None \<Rightarrow> None | Some os \<Rightarrow> os key))"

text \<open>\<open>groupTokenImpact\<close>: the \<open>reduce\<close> over the keys of a group, \<open>null\<close> without a table.\<close>

definition groupTokenImpact :: "FormattingOptionsTokenImpact option \<Rightarrow> OptionItem \<Rightarrow> int option" where
  "groupTokenImpact tokenImpact item =
     (case tokenImpact of
        None \<Rightarrow> None
      | Some ti \<Rightarrow>
          Some (foldl
            (\<lambda>sum key.
               let impact =
                 (if startsWith key ''filter:'' then
                    (let kind = drop (length ''filter:'') key in
                     case impactDisplayFilters ti of None \<Rightarrow> None | Some df \<Rightarrow> df kind)
                  else (case impactOptions ti of None \<Rightarrow> None | Some os \<Rightarrow> os key))
               in sum + (case impact of None \<Rightarrow> 0 | Some i \<Rightarrow> i))
            0 (getAllKeys item)))"

text \<open>
  \<open>impactDisplay\<close>: what the group's row shows, the sign prefix of the template
  \<open>`${impact > 0 ? '+' : ''}${impact}`\<close> and the number.
\<close>

definition impactDisplay ::
  "FormattingOptionsTokenImpact option \<Rightarrow> OptionItem \<Rightarrow> (string \<times> int) option" where
  "impactDisplay tokenImpact item =
     (case groupTokenImpact tokenImpact item of
        None \<Rightarrow> None
      | Some impact \<Rightarrow> Some (if impact > 0 then ''+'' else [], impact))"

text \<open>The cost of a key in a table, an absent one counting 0.\<close>

definition costOf :: "FormattingOptionsTokenImpact \<Rightarrow> string \<Rightarrow> int" where
  "costOf tokenImpact key = (case leafImpact tokenImpact key of None \<Rightarrow> 0 | Some c \<Rightarrow> c)"

section \<open>Expanded groups and the search box (components/OutputOptions.tsx)\<close>

text \<open>
  The component's own state. A \<open>Set\<close> of names is a set; the events are the user's:
  typing in the search box, a click on a group's row, and the expand-all and collapse-all
  buttons.
\<close>

record ui_state =
  searchTerm :: string
  expandedGroups :: "string set"

definition initial_ui :: ui_state where
  "initial_ui =
     \<lparr>searchTerm = [],
      expandedGroups =
        set [''Display Elements'', ''Indicators'', ''Relationships'', ''Structure'',
             ''TypeScript/JavaScript'', ''React'', ''Identifiers'']\<rparr>"

text \<open>The body of the effect on \<open>[searchTerm, allFilteredGroupNames]\<close>.\<close>

definition searchEffect :: "OptionItem list \<Rightarrow> ui_state \<Rightarrow> ui_state" where
  "searchEffect tree s =
     (if trim (searchTerm s) \<noteq> []
      then s\<lparr>expandedGroups := set (allFilteredGroupNames tree (searchTerm s))\<rparr>
      else s)"

text \<open>
  \<open>setSearchTerm\<close>: a new value renders the component again and, both dependencies of
  the effect being computed from the search term, runs the effect; the same value does
  neither.
\<close>

definition setSearchTerm :: "OptionItem list \<Rightarrow> string \<Rightarrow> ui_state \<Rightarrow> ui_state" where
  "setSearchTerm tree newTerm s =
     (if newTerm = searchTerm s then s else searchEffect tree (s\<lparr>searchTerm := newTerm\<rparr>))"

definition toggleGroup :: "string \<Rightarrow> ui_state \<Rightarrow> ui_state" where
  "toggleGroup groupName s =
     (if groupName \<in> expandedGroups s
      then s\<lparr>expandedGroups := expandedGroups s - {groupName}\<rparr>
      else s\<lparr>expandedGroups := insert groupName (expandedGroups s)\<rparr>)"

definition expandAll :: "OptionItem list \<Rightarrow> ui_state \<Rightarrow> ui_state" where
  "expandAll tree s = s\<lparr>expandedGroups := set (allFilteredGroupNames tree (searchTerm s))\<rparr>"

definition collapseAll :: "ui_state \<Rightarrow> ui_state" where
  "collapseAll s = s\<lparr>expandedGroups := {}\<rparr>"

datatype ui_event = SetSearchTerm string | ToggleGroup string | ExpandAll | CollapseAll

fun ui_step :: "OptionItem list \<Rightarrow> ui_state \<Rightarrow> ui_event \<Rightarrow> ui_state" where
  "ui_step tree s (SetSearchTerm newTerm) = setSearchTerm tree newTerm s"
| "ui_step tree s (ToggleGroup groupName) = toggleGroup groupName s"
| "ui_step tree s ExpandAll = expandAll tree s"
| "ui_step tree s CollapseAll = collapseAll s"

definition ui_run :: "OptionItem list \<Rightarrow> ui_state \<Rightarrow> ui_event list \<Rightarrow> ui_state" where
  "ui_run tree s events = foldl (ui_step tree) s events"

section \<open>The analysis worker (worker.ts)\<close>

text \<open>
  Numbers the program stores and hands on without computing on them (a percentage, an
  elapsed time) are integers here; \<open>Date.now()\<close> is a natural number.
\<close>

type_synonym number = int

datatype LogLevel = Silent | Error | Warn | Info | Debug

record LogEntry =
  level :: LogLevel
  message :: string
  timestamp :: nat

record ProgressData =
  percentage :: number
  progressMessage :: string

text \<open>
  Of a \<open>SourceFile\<close> the worker touches \<open>ast\<close> and \<open>language\<close>, and of the language
  \<open>parser\<close> and \<open>loadedLanguage\<close>; \<open>None\<close> is a property that is not there.
\<close>

record Language =
  languageName :: string
  parser :: "unit option"
  loadedLanguage :: "unit option"

record SourceFile =
  path :: string
  ast :: "unit option"
  language :: "Language option"

definition sanitizeAnalysisResult :: "SourceFile list \<Rightarrow> SourceFile list" where
  "sanitizeAnalysisResult result =
     map (\<lambda>file.
            file\<lparr>ast := None,
                 language :=
                   (case language file of
                      None \<Rightarrow> None
                    | Some l \<Rightarrow> Some (l\<lparr>parser := None, loadedLanguage := None\<rparr>))\<rparr>)
         result"

text \<open>The argument of the worker's \<open>analyze\<close>, as \<open>analysis.service.ts\<close> builds it.\<close>

record analyze_request =
  reqFilesInput :: string
  reqLogLevel :: LogLevel
  reqFormattingOptions :: FormattingOptions
  reqIncludePattern :: string
  reqExcludePattern :: string

text \<open>How a promise settles: fulfilled with a value, or rejected with an error (name, message).\<close>

datatype 'a settlement = Fulfilled 'a | Rejected string string

text \<open>
  What parsing the input and the analyzer do for a request, which the worker awaits:
  \<open>JSON.parse\<close> throws, the parsed value is no array, \<open>analyzeProject\<close> returns the
  source files and the elapsed time, or it throws an error (name, message).
\<close>

datatype analyzer_outcome =
    InvalidJson string
  | NotAnArray
  | Analyzed "SourceFile list" number
  | Threw string string

record worker_state =
  workerInitialized :: bool
  abortController :: "bool option"

definition worker_init :: "worker_state \<Rightarrow> worker_state" where
  "worker_init w = (if workerInitialized w then w else w\<lparr>workerInitialized := True\<rparr>)"

text \<open>
  The worker's \<open>analyze\<close>, in two parts: up to the \<open>await\<close> of \<open>analyzeProject\<close>, and from
  there to the end, \<open>finally\<close> included. \<open>calculateTokenImpact\<close> is a function of the
  analyzer's library and a parameter here; the worker calls it on the result as the
  analyzer returned it and on the \<open>formattingOptions\<close> of the request.
\<close>

definition worker_analyze_begin :: "worker_state \<Rightarrow> worker_state" where
  "worker_analyze_begin w =
     (if \<not> workerInitialized w then w else w\<lparr>abortController := Some False\<rparr>)"

definition worker_analyze_end ::
  "(SourceFile list \<Rightarrow> FormattingOptions \<Rightarrow> FormattingOptionsTokenImpact) \<Rightarrow>
   worker_state \<Rightarrow> analyze_request \<Rightarrow> analyzer_outcome \<Rightarrow>
   worker_state \<times> (SourceFile list \<times> number \<times> FormattingOptionsTokenImpact) settlement" where
  "worker_analyze_end calculateTokenImpact w req outcome =
     (if \<not> workerInitialized w then (w, Rejected ''Error'' ''Worker not initialized.'')
      else
        (w\<lparr>abortController := None\<rparr>,
         case outcome of
           InvalidJson m \<Rightarrow> Rejected ''Error'' (''Invalid JSON input: '' @ m)
         | NotAnArray \<Rightarrow> Rejected ''Error'' ''Invalid JSON input: Input is not an array.''
         | Threw name m \<Rightarrow> Rejected name m
         | Analyzed analysisResult analysisTime \<Rightarrow>
             (let tokenImpact = calculateTokenImpact analysisResult (reqFormattingOptions req)
              in Fulfilled (sanitizeAnalysisResult analysisResult, analysisTime, tokenImpact))))"

definition worker_cancel :: "worker_state \<Rightarrow> worker_state" where
  "worker_cancel w = w\<lparr>abortController := map_option (\<lambda>_. True) (abortController w)\<rparr>"

section \<open>The analysis hook (hooks/useAnalysis.hook.ts)\<close>

record analysis_state =
  isInitialized :: bool
  isLoading :: bool
  analysisResult :: "SourceFile list option"
  progress :: "ProgressData option"
  logs :: "LogEntry list"
  analysisTime :: "number option"
  tokenImpact :: "FormattingOptionsTokenImpact option"
  serviceRef :: bool

definition onLog :: "LogEntry \<Rightarrow> analysis_state \<Rightarrow> analysis_state" where
  "onLog log h = h\<lparr>logs := logs h @ [log]\<rparr>"

definition onLogPartial :: "nat \<Rightarrow> LogLevel \<Rightarrow> string \<Rightarrow> analysis_state \<Rightarrow> analysis_state" where
  "onLogPartial now lvl msg h = onLog \<lparr>level = lvl, message = msg, timestamp = now\<rparr> h"

definition resetAnalysisState :: "analysis_state \<Rightarrow> analysis_state" where
  "resetAnalysisState h =
     h\<lparr>analysisResult := None, analysisTime := None, progress := None,
       tokenImpact := None, logs := []\<rparr>"

text \<open>
  \<open>handleAnalyze\<close> is an \<open>async\<close> function. \<open>handleAnalyze_begin\<close> is its run up to the
  \<open>await\<close>: the new state, and either how its own promise has settled already or the
  request it awaits. \<open>handleAnalyze_settle\<close> is the rest, \<open>try\<close>, \<open>catch\<close> and \<open>finally\<close>,
  once the service's promise has settled; the function's own promise is fulfilled then
  too, every error being caught.
\<close>

datatype call_state = Settled "unit settlement" | Awaiting analyze_request

definition handleAnalyze_begin ::
  "nat \<Rightarrow> analysis_state \<Rightarrow> string \<Rightarrow> FormattingOptions \<Rightarrow> string \<Rightarrow> string \<Rightarrow>
   analysis_state \<times> call_state" where
  "handleAnalyze_begin now h filesInput formattingOptions includePattern excludePattern =
     (if \<not> isInitialized h \<or> \<not> serviceRef h
      then (onLogPartial now Warn ''Analysis worker not ready.'' h, Settled (Fulfilled ()))
      else if isLoading h
      then (h, Settled (Fulfilled ()))
      else
        (resetAnalysisState (h\<lparr>isLoading := True\<rparr>),
         Awaiting
           \<lparr>reqFilesInput = filesInput, reqLogLevel = Debug,
            reqFormattingOptions = formattingOptions,
            reqIncludePattern = includePattern, reqExcludePattern = excludePattern\<rparr>))"

definition handleAnalyze_settle ::
  "nat \<Rightarrow> analysis_state \<Rightarrow>
   (SourceFile list \<times> number \<times> FormattingOptionsTokenImpact) settlement \<Rightarrow> analysis_state" where
  "handleAnalyze_settle now h reply =
     (let h' =
        (case reply of
           Fulfilled (result, time, impact) \<Rightarrow>
             h\<lparr>analysisResult := Some result, analysisTime := Some time,
               tokenImpact := Some impact\<rparr>
         | Rejected name msg \<Rightarrow>
             if name = ''AbortError''
             then onLogPartial now Warn ''Analysis canceled by user.'' h
             else onLogPartial now Error (''Analysis error: '' @ msg) h)
      in h'\<lparr>isLoading := False, progress := None\<rparr>)"

section \<open>The application (App.tsx, stores/app.store.ts)\<close>

text \<open>
  The state of the page: the hook's state, the store's values, the worker's state, and
  the calls of the service's \<open>analyze\<close> that have not settled yet, oldest first.
\<close>

record app_state =
  hook :: analysis_state
  filesInput :: string
  formattingOptions :: FormattingOptions
  includePattern :: string
  excludePattern :: string
  worker :: worker_state
  pending :: "analyze_request list"

definition initial_app :: "string \<Rightarrow> FormattingOptions \<Rightarrow> app_state" where
  "initial_app defaultFilesJSON defaultOptions =
     \<lparr>hook =
        \<lparr>isInitialized = False, isLoading = False, analysisResult = None, progress = None,
         logs = [], analysisTime = None, tokenImpact = None, serviceRef = True\<rparr>,
      filesInput = defaultFilesJSON,
      formattingOptions = defaultOptions,
      includePattern = ''**/*'',
      excludePattern = [],
      worker = \<lparr>workerInitialized = False, abortController = None\<rparr>,
      pending = []\<rparr>"

text \<open>
  The events: the worker's \<open>init\<close> resolves or rejects; the user clicks Analyze or Stop,
  or edits the options (the updater given to \<open>setOptions\<close>), the input or a pattern; the
  worker reports progress or a log line; the oldest pending call settles, the analyzer
  having done what the event says. Events that call \<open>Date.now()\<close> carry its value.

  \<open>step\<close> handles each event on the state the event before it left: it is the page with
  a render before every click, the handlers' closures holding the current \<open>isLoading\<close>,
  options and patterns. The renders themselves, and clicks handled by the closures of an
  earlier render, are in \<open>page_step\<close> below.
\<close>

datatype event =
    InitResolved nat
  | InitRejected string nat
  | ClickAnalyze nat
  | ClickStop
  | SetOptions "FormattingOptions \<Rightarrow> FormattingOptions"
  | SetFilesInput string
  | SetIncludePattern string
  | SetExcludePattern string
  | WorkerProgress ProgressData
  | WorkerLog LogEntry
  | Settle analyzer_outcome nat

definition click_analyze :: "nat \<Rightarrow> app_state \<Rightarrow> app_state" where
  "click_analyze now s =
     (case handleAnalyze_begin now (hook s) (filesInput s) (formattingOptions s)
             (includePattern s) (excludePattern s) of
        (h, Settled r) \<Rightarrow> s\<lparr>hook := h\<rparr>
      | (h, Awaiting req) \<Rightarrow>
          s\<lparr>hook := h, worker := worker_analyze_begin (worker s), pending := pending s @ [req]\<rparr>)"

definition handleStop :: "app_state \<Rightarrow> app_state" where
  "handleStop s =
     (if isLoading (hook s) \<and> serviceRef (hook s)
      then s\<lparr>worker := worker_cancel (worker s)\<rparr> else s)"

definition settle ::
  "(SourceFile list \<Rightarrow> FormattingOptions \<Rightarrow> FormattingOptionsTokenImpact) \<Rightarrow>
   analyzer_outcome \<Rightarrow> nat \<Rightarrow> app_state \<Rightarrow> app_state" where
  "settle calculateTokenImpact outcome now s =
     (case pending s of
        [] \<Rightarrow> s
      | req # rest \<Rightarrow>
          (case worker_analyze_end calculateTokenImpact (worker s) req outcome of
             (w, reply) \<Rightarrow>
               s\<lparr>hook := handleAnalyze_settle now (hook s) reply, worker := w, pending := rest\<rparr>))"

fun step ::
  "(SourceFile list \<Rightarrow> FormattingOptions \<Rightarrow> FormattingOptionsTokenImpact) \<Rightarrow>
   app_state \<Rightarrow> event \<Rightarrow> app_state" where
  "step calc s (InitResolved now) =
     s\<lparr>worker := worker_init (worker s),
       hook := onLogPartial now Info ''Analysis worker ready.'' ((hook s)\<lparr>isInitialized := True\<rparr>)\<rparr>"
| "step calc s (InitRejected msg now) =
     s\<lparr>hook := onLogPartial now Error (''Worker failed to initialize: '' @ msg) (hook s)\<rparr>"
| "step calc s (ClickAnalyze now) = click_analyze now s"
| "step calc s ClickStop = handleStop s"
| "step calc s (SetOptions updater) = s\<lparr>formattingOptions := updater (formattingOptions s)\<rparr>"
| "step calc s (SetFilesInput v) = s\<lparr>filesInput := v\<rparr>"
| "step calc s (SetIncludePattern v) = s\<lparr>includePattern := v\<rparr>"
| "step calc s (SetExcludePattern v) = s\<lparr>excludePattern := v\<rparr>"
| "step calc s (WorkerProgress p) = s\<lparr>hook := (hook s)\<lparr>progress := Some p\<rparr>\<rparr>"
| "step calc s (WorkerLog log) = s\<lparr>hook := onLog log (hook s)\<rparr>"
| "step calc s (Settle outcome now) = settle calc outcome now s"

definition run ::
  "(SourceFile list \<Rightarrow> FormattingOptions \<Rightarrow> FormattingOptionsTokenImpact) \<Rightarrow>
   app_state \<Rightarrow> event list \<Rightarrow> app_state" where
  "run calc s events = foldl (step calc) s events"

text \<open>
  Renders. \<open>handleAnalyze\<close> and \<open>handleStop\<close> are \<open>useCallback\<close> closures: the
  \<open>isInitialized\<close> and \<open>isLoading\<close> they test, and the input, options and patterns that
  \<open>App\<close> hands to \<open>handleAnalyze\<close>, are the values of the render that made the closure;
  \<open>serviceRef.current\<close> is read when the call is made, and every setter acts on the state
  as it is then. \<open>handleAnalyze_in_render\<close> is \<open>handleAnalyze\<close> up to its \<open>await\<close> with the
  two states apart: \<open>c\<close> the hook's state at the render, \<open>h\<close> its state at the call.
\<close>

definition handleAnalyze_in_render ::
  "nat \<Rightarrow> analysis_state \<Rightarrow> analysis_state \<Rightarrow> string \<Rightarrow> FormattingOptions \<Rightarrow> string \<Rightarrow> string \<Rightarrow>
   analysis_state \<times> call_state" where
  "handleAnalyze_in_render now c h files opts incl excl =
     (if \<not> isInitialized c \<or> \<not> serviceRef h
      then (onLogPartial now Warn ''Analysis worker not ready.'' h, Settled (Fulfilled ()))
      else if isLoading c
      then (h, Settled (Fulfilled ()))
      else
        (resetAnalysisState (h\<lparr>isLoading := True\<rparr>),
         Awaiting
           \<lparr>reqFilesInput = files, reqLogLevel = Debug,
            reqFormattingOptions = opts,
            reqIncludePattern = incl, reqExcludePattern = excl\<rparr>))"

text \<open>
  The page with its renders: \<open>live\<close> is the state as it is, \<open>closure\<close> the state at the last
  render. A render makes the closures anew; a click on Analyze or Stop runs the closure
  of the last render; every other event acts on the live state as in \<open>step\<close>.
\<close>

record page =
  closure :: app_state
  live :: app_state

datatype page_event = Render | Event event

definition click_analyze_in_render :: "nat \<Rightarrow> app_state \<Rightarrow> app_state \<Rightarrow> app_state" where
  "click_analyze_in_render now c s =
     (case handleAnalyze_in_render now (hook c) (hook s) (filesInput c) (formattingOptions c)
             (includePattern c) (excludePattern c) of
        (h, Settled r) \<Rightarrow> s\<lparr>hook := h\<rparr>
      | (h, Awaiting req) \<Rightarrow>
          s\<lparr>hook := h, worker := worker_analyze_begin (worker s), pending := pending s @ [req]\<rparr>)"

definition handleStop_in_render :: "app_state \<Rightarrow> app_state \<Rightarrow> app_state" where
  "handleStop_in_render c s =
     (if isLoading (hook c) \<and> serviceRef (hook s)
      then s\<lparr>worker := worker_cancel (worker s)\<rparr> else s)"

fun page_step ::
  "(SourceFile list \<Rightarrow> FormattingOptions \<Rightarrow> FormattingOptionsTokenImpact) \<Rightarrow>
   page \<Rightarrow> page_event \<Rightarrow> page" where
  "page_step calc p Render = p\<lparr>closure := live p\<rparr>"
| "page_step calc p (Event (ClickAnalyze now)) =
     p\<lparr>live := click_analyze_in_render now (closure p) (live p)\<rparr>"
| "page_step calc p (Event ClickStop) = p\<lparr>live := handleStop_in_render (closure p) (live p)\<rparr>"
| "page_step calc p (Event ev) = p\<lparr>live := step calc (live p) ev\<rparr>"

definition page_run ::
  "(SourceFile list \<Rightarrow> FormattingOptions \<Rightarrow> FormattingOptionsTokenImpact) \<Rightarrow>
   page \<Rightarrow> page_event list \<Rightarrow> page" where
  "page_run calc p events = foldl (page_step calc) p events"

definition initial_page :: "string \<Rightarrow> FormattingOptions \<Rightarrow> page" where
  "initial_page defaultFilesJSON defaultOptions =
     \<lparr>closure = initial_app defaultFilesJSON defaultOptions,
      live = initial_app defaultFilesJSON defaultOptions\<rparr>"

text \<open>
  \<open>rendered_before_requests rendered events\<close>: in \<open>events\<close> a render comes between every
  click on Analyze and the event before it; \<open>rendered\<close> says whether the closures are those
  of the state the list starts in. React renders so between the clicks of a user.
\<close>

fun rendered_before_requests :: "bool \<Rightarrow> page_event list \<Rightarrow> bool" where
  "rendered_before_requests rendered [] = True"
| "rendered_before_requests rendered (Render # events) = rendered_before_requests True events"
| "rendered_before_requests rendered (Event (ClickAnalyze now) # events) =
     (rendered \<and> rendered_before_requests False events)"
| "rendered_before_requests rendered (Event ev # events) = rendered_before_requests False events"

text \<open>
  The invariant of the page's state: the service is there, a loading hook is an
  initialized one, an initialized hook has an initialized worker, and the hook is loading
  exactly while one call is pending.
\<close>

definition single_flight :: "app_state \<Rightarrow> bool" where
  "single_flight s =
     (serviceRef (hook s)
      \<and> (isLoading (hook s) \<longrightarrow> isInitialized (hook s))
      \<and> (isInitialized (hook s) \<longrightarrow> workerInitialized (worker s))
      \<and> (if isLoading (hook s) then length (pending s) = 1 else pending s = []))"

fun is_settle :: "event \<Rightarrow> bool" where
  "is_settle (Settle outcome now) = True"
| "is_settle ev = False"

text \<open>
  An example of a cost function, to run the model on: the option \<open>showIcons\<close> costs one
  token per source file when it is selected and none when it is not.
\<close>

definition sampleImpact :: "SourceFile list \<Rightarrow> FormattingOptions \<Rightarrow> FormattingOptionsTokenImpact" where
  "sampleImpact result options =
     \<lparr>impactOptions =
        Some [''showIcons'' \<mapsto> (if isSelected options ''showIcons'' then int (length result) else 0)],
      impactDisplayFilters = None\<rparr>"

definition sampleOptions :: FormattingOptions where
  "sampleOptions = \<lparr>preset = Some Default, flags = Map.empty, displayFilters = None\<rparr>"

definition sampleFile :: SourceFile where
  "sampleFile = \<lparr>path = ''a.ts'', ast = Some (), language = None\<rparr>"

section \<open>Facts about strings and lists\<close>

lemma startsWith_iff: "startsWith s p \<longleftrightarrow> take (length p) s = p"
  by (induction s p rule: startsWith.induct) auto

lemma take_eq_iff: "take (length p) s = p \<longleftrightarrow> s = p @ drop (length p) s"
proof
  assume "take (length p) s = p"
  then have "take (length p) s @ drop (length p) s = p @ drop (length p) s" by simp
  then show "s = p @ drop (length p) s" by simp
next
  assume a: "s = p @ drop (length p) s"
  have "take (length p) (p @ drop (length p) s) = p" by simp
  with a show "take (length p) s = p" by simp
qed

lemma startsWith_filter_iff:
  "startsWith key ''filter:'' \<longleftrightarrow> key = ''filter:'' @ drop (length ''filter:'') key"
  unfolding startsWith_iff by (rule take_eq_iff)

lemma drop_filter_prefix: "drop (length ''filter:'') (''filter:'' @ kind) = kind"
  by simp

lemma startsWith_filter_prefix: "startsWith (''filter:'' @ kind) ''filter:''"
  unfolding startsWith_iff by simp

lemma str_includes_empty: "str_includes s []"
  by (induction s) auto

lemma str_includes_iff: "str_includes s t \<longleftrightarrow> (\<exists>ps ss. s = ps @ t @ ss)"
proof (induction s)
  case Nil
  then show ?case by auto
next
  case (Cons c cs)
  have sw: "startsWith (c # cs) t \<longleftrightarrow> (\<exists>ss. c # cs = t @ ss)"
    by (metis startsWith_iff append_eq_conv_conj append_take_drop_id)
  show ?case
  proof
    assume "str_includes (c # cs) t"
    then consider "startsWith (c # cs) t" | "str_includes cs t" by auto
    then show "\<exists>ps ss. c # cs = ps @ t @ ss"
    proof cases
      case 1
      then obtain ss where "c # cs = t @ ss" using sw by blast
      then have "c # cs = [] @ t @ ss" by simp
      then show ?thesis by blast
    next
      case 2
      then obtain ps ss where "cs = ps @ t @ ss" using Cons.IH by blast
      then have "c # cs = (c # ps) @ t @ ss" by simp
      then show ?thesis by blast
    qed
  next
    assume "\<exists>ps ss. c # cs = ps @ t @ ss"
    then obtain ps ss where e: "c # cs = ps @ t @ ss" by blast
    show "str_includes (c # cs) t"
    proof (cases ps)
      case Nil
      then have "startsWith (c # cs) t" using e sw by auto
      then show ?thesis by simp
    next
      case (Cons p ps')
      then have "cs = ps' @ t @ ss" using e by simp
      then have "str_includes cs t" using Cons.IH by blast
      then show ?thesis by simp
    qed
  qed
qed

lemma dropNulls_member: "x \<in> set xs \<Longrightarrow> f x = Some y \<Longrightarrow> y \<in> set (dropNulls (map f xs))"
  by (induction xs) (auto split: option.splits)

lemma filter_item_empty: "filter_item [] item = Some item"
  by (cases item) (simp_all add: str_includes_empty)

lemma set_getAllKeys: "set (getAllKeys item) = leafKeys item"
  by (induction item) auto

lemma allChecked_list_all:
  "allChecked options item = list_all (isSelected options) (getAllKeys item)"
  unfolding allChecked_def isSelected_def Let_def by (rule arg_cong2[where f=list_all]) auto

lemma foldl_plus_sum_list:
  "foldl (\<lambda>sum key. sum + f key) (a::int) xs = a + sum_list (map f xs)"
  by (induction xs arbitrary: a) auto

section \<open>The group checkbox\<close>

text \<open>
  Claim C2. The checkbox of a group is checked exactly when every leaf key under the
  group is selected, whatever the options are; a regular key the options do not hold, and
  a filter key whose kind the display filters do not hold, count as selected.
\<close>

theorem allChecked_iff_every_leaf_selected:
  "allChecked options (Group name children) =
     (\<forall>key \<in> leafKeys (Group name children). isSelected options key)
   \<and> (\<not> startsWith key ''filter:'' \<longrightarrow> flags options key = None \<longrightarrow> isSelected options key)
   \<and> (filterEntry options kind = None \<longrightarrow> isSelected options (''filter:'' @ kind))"
proof -
  have a: "allChecked options (Group name children) =
     (\<forall>key \<in> leafKeys (Group name children). isSelected options key)"
    unfolding allChecked_list_all list_all_iff set_getAllKeys ..
  have b: "\<not> startsWith key ''filter:'' \<longrightarrow> flags options key = None \<longrightarrow> isSelected options key"
    by (simp add: isSelected_def)
  have c: "filterEntry options kind = None \<longrightarrow> isSelected options (''filter:'' @ kind)"
    by (simp add: isSelected_def filterEntry_def split: option.splits)
  from a b c show ?thesis by blast
qed

theorem allChecked_iff_every_leaf_selected_witness:
  "\<not> allChecked \<lparr>preset = None, flags = [''showOutgoing'' \<mapsto> False], displayFilters = None\<rparr>
       (Group ''Relationships'' [Leaf ''showOutgoing'', Leaf ''showIncoming''])
   \<and> isSelected \<lparr>preset = None, flags = [''showOutgoing'' \<mapsto> False], displayFilters = None\<rparr>
       ''showIncoming''
   \<and> isSelected \<lparr>preset = None, flags = [''showOutgoing'' \<mapsto> False], displayFilters = None\<rparr>
       (''filter:'' @ ''class'')"
  using allChecked_iff_every_leaf_selected
    [of "\<lparr>preset = None, flags = [''showOutgoing'' \<mapsto> False], displayFilters = None\<rparr>"
        "''Relationships''" "[Leaf ''showOutgoing'', Leaf ''showIncoming'']"
        "''showIncoming''" "''class''"]
  by (simp add: isSelected_def filterEntry_def)

section \<open>The empty search\<close>

text \<open>
  Claim C6. With the empty search term the filtered tree is the tree itself, for every
  tree: \<open>filteredOptionTree\<close> returns it at once, and the inner \<open>filter\<close>, mapped over the
  tree with the empty term, keeps every item as it is.
\<close>

theorem filteredOptionTree_empty_query:
  "filteredOptionTree tree [] = tree
   \<and> dropNulls (map (filter_item (toLowerCase [])) tree) = tree"
proof -
  have "dropNulls (map (filter_item []) tree) = tree"
    by (induction tree) (simp_all add: filter_item_empty)
  then show ?thesis
    by (simp add: filteredOptionTree_def trim_def toLowerCase_def)
qed

theorem filteredOptionTree_empty_query_witness:
  "filteredOptionTree optionTree [] = optionTree"
  using filteredOptionTree_empty_query [of optionTree] by simp

section \<open>The aggregate impact of a group\<close>

text \<open>
  Claim C8. Given a cost table, the impact shown for a node is the sum, over the leaf
  keys under the node, of the key's cost in the table, a key the table does not hold
  counting 0; the value is shown with a plus sign when it is positive. When no key
  occurs twice under the node this is the sum over the set of its leaf keys.
\<close>

theorem groupTokenImpact_is_sum_of_costs:
  "groupTokenImpact (Some ti) item = Some (\<Sum>key\<leftarrow>getAllKeys item. costOf ti key)
   \<and> impactDisplay (Some ti) item =
       Some (if (\<Sum>key\<leftarrow>getAllKeys item. costOf ti key) > 0 then ''+'' else [],
             \<Sum>key\<leftarrow>getAllKeys item. costOf ti key)
   \<and> (distinct (getAllKeys item) \<longrightarrow>
        groupTokenImpact (Some ti) item = Some (\<Sum>key\<in>leafKeys item. costOf ti key))"
proof -
  have "(\<lambda>sum key.
           let impact =
             (if startsWith key ''filter:'' then
                (let kind = drop (length ''filter:'') key in
                 case impactDisplayFilters ti of None \<Rightarrow> None | Some df \<Rightarrow> df kind)
              else (case impactOptions ti of None \<Rightarrow> None | Some os \<Rightarrow> os key))
           in sum + (case impact of None \<Rightarrow> 0 | Some i \<Rightarrow> i))
        = (\<lambda>sum key. sum + costOf ti key)"
    by (intro ext) (simp add: costOf_def leafImpact_def Let_def split: option.splits)
  then have g: "groupTokenImpact (Some ti) item = Some (\<Sum>key\<leftarrow>getAllKeys item. costOf ti key)"
    by (simp add: groupTokenImpact_def foldl_plus_sum_list)
  have d: "distinct (getAllKeys item) \<Longrightarrow>
      (\<Sum>key\<leftarrow>getAllKeys item. costOf ti key) = (\<Sum>key\<in>leafKeys item. costOf ti key)"
    by (simp add: sum_list_distinct_conv_sum_set set_getAllKeys)
  from g d show ?thesis by (simp add: impactDisplay_def)
qed

theorem groupTokenImpact_is_sum_of_costs_witness:
  "groupTokenImpact
     (Some \<lparr>impactOptions = Some [''showOutgoing'' \<mapsto> 12],
            impactDisplayFilters = Some [''class'' \<mapsto> - 5]\<rparr>)
     (Group ''Sample'' [Leaf ''showOutgoing'', Leaf ''showIncoming'', Leaf ''filter:class''])
   = Some 7"
  using groupTokenImpact_is_sum_of_costs
    [of "\<lparr>impactOptions = Some [''showOutgoing'' \<mapsto> 12],
           impactDisplayFilters = Some [''class'' \<mapsto> - 5]\<rparr>"
        "Group ''Sample'' [Leaf ''showOutgoing'', Leaf ''showIncoming'', Leaf ''filter:class'']"]
  by (simp add: costOf_def leafImpact_def)

section \<open>Edits of the options\<close>

lemma groupLoop_preset: "preset (fst (groupLoop b keys acc)) = preset (fst acc)"
  by (induction keys arbitrary: acc) auto

lemma groupLoop_displayFilters: "displayFilters (fst (groupLoop b keys acc)) = displayFilters (fst acc)"
  by (induction keys arbitrary: acc) auto

lemma groupLoop_flags:
  "flags (fst (groupLoop b keys acc)) k =
     (if k \<in> set keys \<and> \<not> startsWith k ''filter:'' then Some b else flags (fst acc) k)"
  by (induction keys arbitrary: acc) auto

lemma groupLoop_filters:
  "snd (groupLoop b keys acc) kind =
     (if ''filter:'' @ kind \<in> set keys then Some b else snd acc kind)"
proof (induction keys arbitrary: acc)
  case Nil
  then show ?case by simp
next
  case (Cons key keys)
  show ?case
  proof (cases "startsWith key ''filter:''")
    case True
    then have k: "key = ''filter:'' @ drop (length ''filter:'') key"
      using startsWith_filter_iff by blast
    have "drop (length ''filter:'') key = kind \<longleftrightarrow> key = ''filter:'' @ kind"
      using k drop_filter_prefix by metis
    then show ?thesis using True Cons.IH by auto
  next
    case False
    then have "key \<noteq> ''filter:'' @ kind" using startsWith_filter_prefix by metis
    then show ?thesis using False Cons.IH by auto
  qed
qed

lemma handleGroupChange_flags:
  "flags (handleGroupChange keys checked prev) k =
     (if k \<in> set keys \<and> \<not> startsWith k ''filter:'' then Some (checked = Checked True) else flags prev k)"
  by (simp add: handleGroupChange_def Let_def groupLoop_flags)

lemma handleGroupChange_filterEntry:
  "filterEntry (handleGroupChange keys checked prev) kind =
     (if ''filter:'' @ kind \<in> set keys then Some (checked = Checked True) else filterEntry prev kind)"
  by (simp add: handleGroupChange_def Let_def groupLoop_filters filterEntry_def split: option.splits)

lemma handleGroupChange_preset: "preset (handleGroupChange keys checked prev) = None"
  by (simp add: handleGroupChange_def Let_def groupLoop_preset)

lemma isSelected_alt:
  "isSelected options key =
     (if startsWith key ''filter:''
      then (case filterEntry options (drop (length ''filter:'') key) of None \<Rightarrow> True | Some b \<Rightarrow> b)
      else (case flags options key of None \<Rightarrow> True | Some b \<Rightarrow> b))"
  by (simp add: isSelected_def filterEntry_def Let_def split: option.splits)

lemma handleChange_flags:
  "flags (handleChange optionKey checked prev) k =
     (if k = optionKey \<and> \<not> startsWith k ''filter:'' then Some (checked = Checked True) else flags prev k)"
  by (auto simp add: handleChange_def Let_def)

lemma handleChange_filterEntry:
  "filterEntry (handleChange optionKey checked prev) kind =
     (if ''filter:'' @ kind = optionKey then Some (checked = Checked True) else filterEntry prev kind)"
proof (cases "startsWith optionKey ''filter:''")
  case True
  then have k: "optionKey = ''filter:'' @ drop (length ''filter:'') optionKey"
    using startsWith_filter_iff by blast
  have "drop (length ''filter:'') optionKey = kind \<longleftrightarrow> ''filter:'' @ kind = optionKey"
    using k drop_filter_prefix by metis
  then show ?thesis using True
    by (auto simp add: handleChange_def Let_def filterEntry_def split: option.splits)
next
  case False
  then have "''filter:'' @ kind \<noteq> optionKey" using startsWith_filter_prefix by metis
  then show ?thesis using False by (simp add: handleChange_def Let_def filterEntry_def)
qed

lemma handleChange_preset: "preset (handleChange optionKey checked prev) = None"
  by (simp add: handleChange_def Let_def)

text \<open>
  Claim C7. For every state, list of keys and boolean, the group toggle
  (\<open>handleGroupChange\<close>) gives a state in which every listed key holds the boolean (and
  reads as selected or not accordingly), \<open>preset\<close> is \<open>undefined\<close>, and the entry of
  every flag and of every filter kind whose key is not listed is as before; the edit of
  one key (\<open>handleChange\<close>) likewise sets the key, clears \<open>preset\<close> and leaves every
  other entry as before.
\<close>

theorem edits_set_keys_clear_preset_keep_rest:
  "preset (handleGroupChange keys (Checked v) prev) = None
   \<and> (\<forall>key \<in> set keys.
        isSelected (handleGroupChange keys (Checked v) prev) key = v
        \<and> (if startsWith key ''filter:''
           then filterEntry (handleGroupChange keys (Checked v) prev)
                  (drop (length ''filter:'') key) = Some v
           else flags (handleGroupChange keys (Checked v) prev) key = Some v))
   \<and> (\<forall>key. key \<notin> set keys \<longrightarrow>
        flags (handleGroupChange keys (Checked v) prev) key = flags prev key)
   \<and> (\<forall>kind. ''filter:'' @ kind \<notin> set keys \<longrightarrow>
        filterEntry (handleGroupChange keys (Checked v) prev) kind = filterEntry prev kind)
   \<and> preset (handleChange optionKey (Checked v) prev) = None
   \<and> isSelected (handleChange optionKey (Checked v) prev) optionKey = v
   \<and> (\<forall>key. key \<noteq> optionKey \<longrightarrow>
        flags (handleChange optionKey (Checked v) prev) key = flags prev key)
   \<and> (\<forall>kind. ''filter:'' @ kind \<noteq> optionKey \<longrightarrow>
        filterEntry (handleChange optionKey (Checked v) prev) kind = filterEntry prev kind)"
proof -
  have in_keys: "\<And>key. key \<in> set keys \<Longrightarrow> startsWith key ''filter:'' \<Longrightarrow>
      ''filter:'' @ drop (length ''filter:'') key \<in> set keys"
    using startsWith_filter_iff by metis
  have g2: "\<forall>key \<in> set keys.
        isSelected (handleGroupChange keys (Checked v) prev) key = v
        \<and> (if startsWith key ''filter:''
           then filterEntry (handleGroupChange keys (Checked v) prev)
                  (drop (length ''filter:'') key) = Some v
           else flags (handleGroupChange keys (Checked v) prev) key = Some v)"
    using in_keys by (auto simp add: isSelected_alt handleGroupChange_flags handleGroupChange_filterEntry)
  have self: "startsWith optionKey ''filter:'' \<Longrightarrow>
      ''filter:'' @ drop (length ''filter:'') optionKey = optionKey"
    using startsWith_filter_iff by metis
  have c2: "isSelected (handleChange optionKey (Checked v) prev) optionKey = v"
    using self by (auto simp add: isSelected_alt handleChange_flags handleChange_filterEntry)
  have g1: "preset (handleGroupChange keys (Checked v) prev) = None"
    by (rule handleGroupChange_preset)
  have g3: "\<forall>key. key \<notin> set keys \<longrightarrow>
        flags (handleGroupChange keys (Checked v) prev) key = flags prev key"
    by (simp add: handleGroupChange_flags)
  have g4: "\<forall>kind. ''filter:'' @ kind \<notin> set keys \<longrightarrow>
        filterEntry (handleGroupChange keys (Checked v) prev) kind = filterEntry prev kind"
    by (intro allI impI) (simp add: handleGroupChange_filterEntry)
  have c1: "preset (handleChange optionKey (Checked v) prev) = None"
    by (rule handleChange_preset)
  have c3: "\<forall>key. key \<noteq> optionKey \<longrightarrow>
        flags (handleChange optionKey (Checked v) prev) key = flags prev key"
    by (simp add: handleChange_flags)
  have c4: "\<forall>kind. ''filter:'' @ kind \<noteq> optionKey \<longrightarrow>
        filterEntry (handleChange optionKey (Checked v) prev) kind = filterEntry prev kind"
    by (intro allI impI) (simp add: handleChange_filterEntry)
  from g1 g2 g3 g4 c1 c2 c3 c4 show ?thesis by (intro conjI)
qed


theorem edits_set_keys_clear_preset_keep_rest_witness:
  "preset (handleGroupChange [''showOutgoing'', ''filter:class''] (Checked False)
      \<lparr>preset = Some Default, flags = [''showIcons'' \<mapsto> True], displayFilters = None\<rparr>) = None
   \<and> flags (handleGroupChange [''showOutgoing'', ''filter:class''] (Checked False)
      \<lparr>preset = Some Default, flags = [''showIcons'' \<mapsto> True], displayFilters = None\<rparr>)
        ''showOutgoing'' = Some False
   \<and> filterEntry (handleGroupChange [''showOutgoing'', ''filter:class''] (Checked False)
      \<lparr>preset = Some Default, flags = [''showIcons'' \<mapsto> True], displayFilters = None\<rparr>)
        ''class'' = Some False
   \<and> flags (handleGroupChange [''showOutgoing'', ''filter:class''] (Checked False)
      \<lparr>preset = Some Default, flags = [''showIcons'' \<mapsto> True], displayFilters = None\<rparr>)
        ''showIcons'' = Some True
   \<and> filterEntry (handleGroupChange [''showOutgoing'', ''filter:class''] (Checked False)
      \<lparr>preset = Some Default, flags = [''showIcons'' \<mapsto> True], displayFilters = None\<rparr>)
        ''interface'' = None"
  using edits_set_keys_clear_preset_keep_rest
    [of "[''showOutgoing'', ''filter:class'']" False
        "\<lparr>preset = Some Default, flags = [''showIcons'' \<mapsto> True], displayFilters = None\<rparr>"
        "''showOutgoing''"]
  by (simp add: filterEntry_def)

section \<open>Ancestors of a matching leaf\<close>

lemma leafUnder_Nil: "\<not> leafUnder [] names key"
  by (cases names) simp_all

lemma leafUnder_Cons:
  "leafUnder items (name # names) key \<longleftrightarrow>
     (\<exists>children. Group name children \<in> set items \<and> leafUnder children names key)"
proof
  assume "leafUnder items (name # names) key"
  then obtain item where i: "item \<in> set items"
    and c: "(case item of Leaf k \<Rightarrow> False
             | Group n children \<Rightarrow> n = name \<and> leafUnder children names key)"
    by (auto simp: list_ex_iff)
  from c obtain children where "item = Group name children" "leafUnder children names key"
    by (cases item) auto
  with i show "\<exists>children. Group name children \<in> set items \<and> leafUnder children names key"
    by blast
next
  assume "\<exists>children. Group name children \<in> set items \<and> leafUnder children names key"
  then show "leafUnder items (name # names) key"
    by (force simp: list_ex_iff)
qed

lemma groupNames_member:
  "item \<in> set items \<Longrightarrow> set (groupNamesOf item) \<subseteq> set (getAllGroupNames items)"
  by auto

lemma groupNames_Group:
  "set (groupNamesOf (Group name children)) = insert name (set (getAllGroupNames children))"
  by simp

lemma leafUnder_group_names: "leafUnder items names key \<Longrightarrow> set names \<subseteq> set (getAllGroupNames items)"
proof (induction names arbitrary: items)
  case Nil
  then show ?case by simp
next
  case (Cons name names)
  from Cons.prems obtain children where
    g: "Group name children \<in> set items" and l: "leafUnder children names key"
    using leafUnder_Cons by blast
  from l have "set names \<subseteq> set (getAllGroupNames children)" by (rule Cons.IH)
  moreover have "set (groupNamesOf (Group name children)) \<subseteq> set (getAllGroupNames items)"
    using g by (rule groupNames_member)
  ultimately show ?case
    unfolding groupNames_Group by (auto simp del: getAllGroupNames.simps groupNamesOf.simps)
qed

lemma filter_item_keeps_path:
  assumes "str_includes (toLowerCase (filterLabel key)) q"
  shows "leafUnder items names key \<Longrightarrow> leafUnder (dropNulls (map (filter_item q) items)) names key"
proof (induction names arbitrary: items)
  case Nil
  then have "Leaf key \<in> set items" by simp
  moreover have "filter_item q (Leaf key) = Some (Leaf key)" using assms by simp
  ultimately have "Leaf key \<in> set (dropNulls (map (filter_item q) items))"
    by (rule dropNulls_member)
  then show ?case by simp
next
  case (Cons name names)
  from Cons.prems obtain children where
    g: "Group name children \<in> set items" and l: "leafUnder children names key"
    using leafUnder_Cons by blast
  let ?fc = "dropNulls (map (filter_item q) children)"
  from l have kept: "leafUnder ?fc names key" by (rule Cons.IH)
  then have ne: "?fc \<noteq> []" using leafUnder_Nil by metis
  obtain children' where
    f: "filter_item q (Group name children) = Some (Group name children')"
    and l': "leafUnder children' names key"
  proof (cases "str_includes (toLowerCase name) q")
    case True
    then have "filter_item q (Group name children) = Some (Group name children)" by simp
    with l that show ?thesis by blast
  next
    case False
    then have "filter_item q (Group name children) = Some (Group name ?fc)"
      using ne by (simp add: Let_def)
    with kept that show ?thesis by blast
  qed
  from g f have "Group name children' \<in> set (dropNulls (map (filter_item q) items))"
    by (rule dropNulls_member)
  with l' show ?case using leafUnder_Cons by blast
qed

text \<open>
  The label \<open>filter\<close> reads for a regular key is the one \<open>renderItem\<close> prints, no
  entry of \<open>optionLabels\<close> being empty.
\<close>

lemma optionLabels_nonempty: "optionLabels key \<noteq> Some []"
  by (simp add: optionLabels_def symbolKindLabels_def map_add_def)

lemma filterLabel_regular_key:
  "\<not> startsWith key ''filter:'' \<Longrightarrow> filterLabel key = displayLabel key"
  using optionLabels_nonempty [of key]
  by (simp add: filterLabel_def displayLabel_def Let_def split: option.splits)

text \<open>
  For every forest and every search term: when the label of a leaf, as \<open>filter\<close> reads
  it (\<open>optionLabels[item] || item\<close>), contains the lower-cased term, the leaf is in the
  filtered forest below the same chain of groups, so every ancestor group of the leaf is
  in the output, also one whose own name does not match.
\<close>

lemma matching_leaf_keeps_ancestors:
  assumes "leafUnder tree names key"
    and "str_includes (toLowerCase (filterLabel key)) (toLowerCase query)"
  shows "leafUnder (filteredOptionTree tree query) names key
         \<and> set names \<subseteq> set (allFilteredGroupNames tree query)"
proof -
  have "leafUnder (filteredOptionTree tree query) names key"
    using assms by (simp add: filteredOptionTree_def filter_item_keeps_path)
  then show ?thesis
    using leafUnder_group_names unfolding allFilteredGroupNames_def by blast
qed

lemma matching_leaf_keeps_ancestors_example:
  "leafUnder (filteredOptionTree optionTree ''file ID'') [''Display Elements'', ''Identifiers''] ''showFileIds''
   \<and> ''Display Elements'' \<in> set (allFilteredGroupNames optionTree ''file ID'')
   \<and> ''Identifiers'' \<in> set (allFilteredGroupNames optionTree ''file ID'')
   \<and> \<not> str_includes (toLowerCase ''Display Elements'') (toLowerCase ''file ID'')
   \<and> \<not> str_includes (toLowerCase ''Identifiers'') (toLowerCase ''file ID'')"
proof -
  have a: "leafUnder optionTree [''Display Elements'', ''Identifiers''] ''showFileIds''"
    by code_simp
  have b: "str_includes (toLowerCase (filterLabel ''showFileIds'')) (toLowerCase ''file ID'')"
    by code_simp
  have c: "\<not> str_includes (toLowerCase ''Display Elements'') (toLowerCase ''file ID'')"
    by code_simp
  have d: "\<not> str_includes (toLowerCase ''Identifiers'') (toLowerCase ''file ID'')"
    by code_simp
  from matching_leaf_keeps_ancestors [OF a b] c d show ?thesis by simp
qed

text \<open>
  For a leaf with a regular key the same holds of the label \<open>renderItem\<close> prints.
\<close>

lemma matching_regular_leaf_keeps_ancestors:
  assumes "leafUnder tree names key"
    and "\<not> startsWith key ''filter:''"
    and "str_includes (toLowerCase (displayLabel key)) (toLowerCase query)"
  shows "leafUnder (filteredOptionTree tree query) names key
         \<and> set names \<subseteq> set (allFilteredGroupNames tree query)"
proof -
  have "str_includes (toLowerCase (filterLabel key)) (toLowerCase query)"
    using assms(2,3) by (simp add: filterLabel_regular_key)
  then have "leafUnder (filteredOptionTree tree query) names key"
    using assms(1) by (simp add: filteredOptionTree_def filter_item_keeps_path)
  then show ?thesis
    using leafUnder_group_names unfolding allFilteredGroupNames_def by blast
qed

lemma filtered_for_classes: "filteredOptionTree optionTree ''classes'' = []"
  by code_simp

text \<open>
  Claim C5. When the label of a leaf matches the query, every ancestor group of the leaf
  is to be in the output of the filter. For a leaf with a filter key the code does not
  keep them: the leaf \<open>filter:class\<close> lies below \<open>Symbol Visibility\<close>,
  \<open>TypeScript/JavaScript\<close> and \<open>Declarations\<close>, its printed label \<open>Classes\<close> contains the
  term \<open>classes\<close>, and the filtered tree is empty, none of the three groups in it. The
  cause is the lookup of claim C4: \<open>filter\<close> compares the raw key of a filter leaf.
\<close>

theorem matching_filter_leaf_loses_ancestors:
  "leafUnder optionTree [''Symbol Visibility'', ''TypeScript/JavaScript'', ''Declarations'']
     ''filter:class''
   \<and> displayLabel ''filter:class'' = ''Classes''
   \<and> str_includes (toLowerCase (displayLabel ''filter:class'')) (toLowerCase ''classes'')
   \<and> filteredOptionTree optionTree ''classes'' = []
   \<and> allFilteredGroupNames optionTree ''classes'' = []
   \<and> \<not> leafUnder (filteredOptionTree optionTree ''classes'')
         [''Symbol Visibility'', ''TypeScript/JavaScript'', ''Declarations''] ''filter:class''"
proof -
  have a: "leafUnder optionTree [''Symbol Visibility'', ''TypeScript/JavaScript'', ''Declarations'']
     ''filter:class''"
    by code_simp
  have b: "displayLabel ''filter:class'' = ''Classes''"
    by code_simp
  have c: "str_includes (toLowerCase (displayLabel ''filter:class'')) (toLowerCase ''classes'')"
    by code_simp
  from a b c show ?thesis
    by (simp add: filtered_for_classes allFilteredGroupNames_def)
qed

section \<open>What the search compares\<close>

text \<open>
  Claim C4. The search is to compare the lower-cased term with the leaf's printed label,
  never with the raw key. For a filter key it does not: \<open>filter\<close> looks the whole key up
  in \<open>optionLabels\<close>, which holds the symbol kinds without the \<open>filter:\<close> prefix, finds
  nothing and compares with the key. The leaf \<open>filter:class\<close>, printed as \<open>Classes\<close>, is
  dropped by the term \<open>classes\<close> (which leaves nothing of the whole tree) and kept by the
  term \<open>filter:\<close>.
\<close>

theorem filter_reads_raw_filter_keys:
  "displayLabel ''filter:class'' = ''Classes''
   \<and> filterLabel ''filter:class'' = ''filter:class''
   \<and> filter_item (toLowerCase ''classes'') (Leaf ''filter:class'') = None
   \<and> filter_item (toLowerCase ''filter:'') (Leaf ''filter:class'') = Some (Leaf ''filter:class'')
   \<and> filteredOptionTree optionTree ''classes'' = []"
  by code_simp

section \<open>Expanded groups during a search\<close>

lemma trim_go: "trim ''go'' = ''go''"
  by code_simp

lemma groups_for_go:
  "allFilteredGroupNames optionTree ''go''
     = [''Relationships'', ''Symbol Visibility'', ''Other Languages'', ''Go'']"
  by code_simp

lemma ui_after_search_and_toggle:
  "ui_run optionTree initial_ui [SetSearchTerm ''go'', ToggleGroup ''Go'']
     = \<lparr>searchTerm = ''go'',
        expandedGroups = {''Relationships'', ''Symbol Visibility'', ''Other Languages''}\<rparr>"
  by (simp add: ui_run_def setSearchTerm_def searchEffect_def toggleGroup_def initial_ui_def
      groups_for_go trim_go insert_Diff_if)

text \<open>
  Claim C10, as stated, fails: after the search term \<open>go\<close> has been typed, a click on the
  row of the group \<open>Go\<close> collapses it; the term is still there and the group is still in
  the filtered tree.
\<close>

theorem collapsed_during_search:
  "trim (searchTerm (ui_run optionTree initial_ui [SetSearchTerm ''go'', ToggleGroup ''Go''])) \<noteq> []
   \<and> ''Go'' \<in> set (allFilteredGroupNames optionTree
         (searchTerm (ui_run optionTree initial_ui [SetSearchTerm ''go'', ToggleGroup ''Go''])))
   \<and> ''Go'' \<notin> expandedGroups (ui_run optionTree initial_ui [SetSearchTerm ''go'', ToggleGroup ''Go''])"
  by (simp add: ui_after_search_and_toggle groups_for_go trim_go)

text \<open>
  Claim C10, amended. Whenever the search term changes to a value that is not blank, the
  set of expanded groups is set to exactly the group names of the filtered tree, so every
  group that survives the filter is expanded right after the change.
\<close>

theorem search_edit_expands_filtered_groups:
  "trim v \<noteq> [] \<Longrightarrow> v \<noteq> searchTerm s \<Longrightarrow>
     expandedGroups (ui_step tree s (SetSearchTerm v)) = set (getAllGroupNames (filteredOptionTree tree v))
     \<and> searchTerm (ui_step tree s (SetSearchTerm v)) = v
     \<and> (\<forall>g \<in> set (allFilteredGroupNames tree v). g \<in> expandedGroups (ui_step tree s (SetSearchTerm v)))"
  by (simp add: setSearchTerm_def searchEffect_def allFilteredGroupNames_def del: getAllGroupNames.simps)

theorem search_edit_expands_filtered_groups_witness:
  "expandedGroups (ui_step optionTree initial_ui (SetSearchTerm ''go''))
     = set [''Relationships'', ''Symbol Visibility'', ''Other Languages'', ''Go'']"
proof -
  have a: "trim ''go'' \<noteq> []" by (simp add: trim_go)
  have b: "''go'' \<noteq> searchTerm initial_ui" by (simp add: initial_ui_def)
  have "expandedGroups (ui_step optionTree initial_ui (SetSearchTerm ''go''))
          = set (getAllGroupNames (filteredOptionTree optionTree ''go''))"
    using search_edit_expands_filtered_groups [OF a b, of optionTree] by (rule conjunct1)
  then show ?thesis by (simp only: groups_for_go [unfolded allFilteredGroupNames_def])
qed

section \<open>One job at a time\<close>

lemma single_flight_initial: "single_flight (initial_app files opts)"
  by (simp add: single_flight_def initial_app_def)

lemma single_flight_click: "single_flight s \<Longrightarrow> single_flight (click_analyze now s)"
  by (auto simp add: single_flight_def click_analyze_def handleAnalyze_begin_def
      resetAnalysisState_def onLogPartial_def onLog_def worker_analyze_begin_def
      split: if_splits)

lemma single_flight_settle: "single_flight s \<Longrightarrow> single_flight (settle calc outcome now s)"
  by (auto simp add: single_flight_def settle_def handleAnalyze_settle_def worker_analyze_end_def
      onLogPartial_def onLog_def Let_def
      split: list.splits if_splits settlement.splits analyzer_outcome.splits prod.splits)

lemma single_flight_step: "single_flight s \<Longrightarrow> single_flight (step calc s ev)"
proof (cases ev)
  case (ClickAnalyze now)
  then show "single_flight s \<Longrightarrow> ?thesis" by (simp add: single_flight_click)
next
  case (Settle outcome now)
  then show "single_flight s \<Longrightarrow> ?thesis" by (simp add: single_flight_settle)
qed (auto simp add: single_flight_def onLogPartial_def onLog_def handleStop_def worker_init_def
      worker_cancel_def)

lemma single_flight_run: "single_flight s \<Longrightarrow> single_flight (run calc s events)"
  unfolding run_def by (induction events arbitrary: s) (simp_all add: single_flight_step)

lemma single_flight_reachable: "single_flight (run calc (initial_app files opts) events)"
  by (simp add: single_flight_run single_flight_initial)

lemma busy_click_ignored:
  "single_flight s \<Longrightarrow> isLoading (hook s) \<Longrightarrow>
     click_analyze now s = s
     \<and> handleAnalyze_begin now (hook s) f o' i e = (hook s, Settled (Fulfilled ()))"
  by (simp add: single_flight_def click_analyze_def handleAnalyze_begin_def)

lemmas run_simps =
  run_def click_analyze_def handleAnalyze_begin_def handleAnalyze_settle_def settle_def
  resetAnalysisState_def onLogPartial_def onLog_def worker_analyze_begin_def worker_analyze_end_def
  worker_init_def worker_cancel_def handleStop_def initial_app_def

text \<open>
  Claim C1, as stated, fails: \<open>handleAnalyze\<close>, called while a job is loading, returns at
  once and its promise is fulfilled; no call is rejected, and the program has no
  \<open>BusyError\<close>.
\<close>

theorem busy_request_is_fulfilled_not_rejected:
  "isLoading (hook (run sampleImpact (initial_app [] sampleOptions) [InitResolved 0, ClickAnalyze 1]))
   \<and> snd (handleAnalyze_begin 2
          (hook (run sampleImpact (initial_app [] sampleOptions) [InitResolved 0, ClickAnalyze 1]))
          [] sampleOptions [] [])
       = Settled (Fulfilled ())"
  by (simp add: run_simps)

lemma handleAnalyze_in_render_same:
  "handleAnalyze_in_render now h h files opts incl excl = handleAnalyze_begin now h files opts incl excl"
  by (simp add: handleAnalyze_in_render_def handleAnalyze_begin_def)

lemma click_analyze_in_render_same: "click_analyze_in_render now s s = click_analyze now s"
  by (simp add: click_analyze_in_render_def click_analyze_def handleAnalyze_in_render_same)

lemma handleStop_in_render_keeps: "single_flight s \<Longrightarrow> single_flight (handleStop_in_render c s)"
  by (simp add: single_flight_def handleStop_in_render_def worker_cancel_def)

lemma page_run_Cons: "page_run calc p (ev # events) = page_run calc (page_step calc p ev) events"
  by (simp add: page_run_def)

lemma page_step_other_single_flight:
  "single_flight (live p) \<Longrightarrow> \<forall>now. ev \<noteq> ClickAnalyze now \<Longrightarrow>
     single_flight (live (page_step calc p (Event ev)))"
  using single_flight_step [of "live p" calc ev]
  by (cases ev) (simp_all add: handleStop_in_render_keeps)

lemma page_step_request_single_flight:
  "single_flight (live p) \<Longrightarrow> closure p = live p \<Longrightarrow>
     single_flight (live (page_step calc p (Event (ClickAnalyze now))))"
  by (simp add: click_analyze_in_render_same single_flight_click)

lemma rendered_before_other:
  "\<forall>now. ev \<noteq> ClickAnalyze now \<Longrightarrow>
     rendered_before_requests rendered (Event ev # events) = rendered_before_requests False events"
  by (cases ev) simp_all

lemma page_run_single_flight:
  "rendered_before_requests rendered events \<Longrightarrow> single_flight (live p) \<Longrightarrow>
   (rendered \<longrightarrow> closure p = live p) \<Longrightarrow>
     single_flight (live (page_run calc p events))"
proof (induction events arbitrary: rendered p)
  case Nil
  then show ?case by (simp add: page_run_def)
next
  case (Cons pev events)
  show ?case
  proof (cases pev)
    case Render
    have "single_flight (live (page_run calc (page_step calc p Render) events))"
      using Cons.prems Render by (intro Cons.IH [of True]) simp_all
    then show ?thesis using Render by (simp only: page_run_Cons)
  next
    case (Event ev)
    show ?thesis
    proof (cases "\<exists>now. ev = ClickAnalyze now")
      case True
      then obtain now where ev: "ev = ClickAnalyze now" by blast
      from Cons.prems(1) Event ev have r: "rendered" and rest: "rendered_before_requests False events"
        by simp_all
      from r Cons.prems(3) have c: "closure p = live p" by simp
      have "single_flight (live (page_step calc p (Event (ClickAnalyze now))))"
        using Cons.prems(2) c by (rule page_step_request_single_flight)
      then have "single_flight (live (page_run calc (page_step calc p (Event (ClickAnalyze now))) events))"
        using rest by (intro Cons.IH [of False]) simp_all
      then show ?thesis using Event ev by (simp only: page_run_Cons)
    next
      case False
      then have other: "\<forall>now. ev \<noteq> ClickAnalyze now" by blast
      from Cons.prems(1) Event have rest: "rendered_before_requests False events"
        by (simp only: rendered_before_other [OF other])
      have "single_flight (live (page_step calc p (Event ev)))"
        using Cons.prems(2) other by (rule page_step_other_single_flight)
      then have "single_flight (live (page_run calc (page_step calc p (Event ev)) events))"
        using rest by (intro Cons.IH [of False]) simp_all
      then show ?thesis using Event by (simp only: page_run_Cons)
    qed
  qed
qed

lemma page_single_flight_reachable:
  "rendered_before_requests True events \<Longrightarrow>
     single_flight (live (page_run calc (initial_page files opts) events))"
  by (rule page_run_single_flight) (simp_all add: initial_page_def single_flight_initial)

text \<open>
  Claim C1, amended. For every sequence of events from the initial state in which a
  render comes before each run request, as React renders between the clicks of a user, at
  most one call of the service's \<open>analyze\<close> is pending, and the hook is loading exactly
  while one is; a run request made then, while a job is loading, returns at once with
  its promise fulfilled, queues nothing and leaves the whole state, the active job's
  included, as it is.
\<close>

theorem one_job_at_a_time:
  assumes "rendered_before_requests True events"
    and "p = page_run calc (initial_page files opts) events"
  shows "length (pending (live p)) \<le> 1
    \<and> isLoading (hook (live p)) = (pending (live p) \<noteq> [])
    \<and> (isLoading (hook (live p)) \<longrightarrow>
         handleAnalyze_in_render now (hook (live p)) (hook (live p)) f o' i e
           = (hook (live p), Settled (Fulfilled ()))
         \<and> live (page_run calc p [Render, Event (ClickAnalyze now)]) = live p)"
proof -
  have inv: "single_flight (live p)"
    using assms by (simp add: page_single_flight_reachable)
  then have a: "length (pending (live p)) \<le> 1"
    and b: "isLoading (hook (live p)) = (pending (live p) \<noteq> [])"
    by (auto simp add: single_flight_def split: if_splits)
  have c: "isLoading (hook (live p)) \<longrightarrow>
         handleAnalyze_in_render now (hook (live p)) (hook (live p)) f o' i e
           = (hook (live p), Settled (Fulfilled ()))
         \<and> live (page_run calc p [Render, Event (ClickAnalyze now)]) = live p"
    using busy_click_ignored [OF inv]
    by (simp add: page_run_def click_analyze_in_render_same handleAnalyze_in_render_same)
  from a b c show ?thesis by blast
qed

lemmas page_simps =
  page_run_def initial_page_def click_analyze_in_render_def handleAnalyze_in_render_def
  handleStop_in_render_def run_def click_analyze_def handleAnalyze_begin_def
  handleAnalyze_settle_def settle_def resetAnalysisState_def onLogPartial_def onLog_def
  worker_analyze_begin_def worker_analyze_end_def worker_init_def worker_cancel_def
  handleStop_def initial_app_def

theorem one_job_at_a_time_witness:
  "length (pending (live (page_run sampleImpact (initial_page [] sampleOptions)
      [Event (InitResolved 0), Render, Event (ClickAnalyze 1), Render, Event (ClickAnalyze 2)]))) = 1
   \<and> live (page_run sampleImpact (initial_page [] sampleOptions)
      [Event (InitResolved 0), Render, Event (ClickAnalyze 1), Render, Event (ClickAnalyze 2)])
     = live (page_run sampleImpact (initial_page [] sampleOptions)
      [Event (InitResolved 0), Render, Event (ClickAnalyze 1)])"
proof -
  let ?evs = "[Event (InitResolved 0), Render, Event (ClickAnalyze 1)]"
  let ?p = "page_run sampleImpact (initial_page [] sampleOptions) ?evs"
  have r: "rendered_before_requests True ?evs" by simp
  have l: "isLoading (hook (live ?p))" by (simp add: page_simps)
  have p: "pending (live ?p) \<noteq> []" by (simp add: page_simps)
  have e: "page_run sampleImpact (initial_page [] sampleOptions)
             [Event (InitResolved 0), Render, Event (ClickAnalyze 1), Render, Event (ClickAnalyze 2)]
           = page_run sampleImpact ?p [Render, Event (ClickAnalyze 2)]"
    by (simp add: page_run_def)
  from one_job_at_a_time [OF r refl, of sampleImpact "[]" sampleOptions 2 "[]" sampleOptions "[]" "[]"]
    l p e
  show ?thesis by (simp add: le_Suc_eq)
qed

text \<open>
  The render is needed: the guard of \<open>handleAnalyze\<close> reads the \<open>isLoading\<close> of its closure,
  and two requests made by the closure of one render are both sent.
\<close>

lemma back_to_back_requests_dispatch_twice:
  "length (pending (live (page_run sampleImpact (initial_page [] sampleOptions)
      [Event (InitResolved 0), Render, Event (ClickAnalyze 1), Event (ClickAnalyze 2)]))) = 2"
  by (simp add: page_simps)

lemma run_append: "run calc s (xs @ ys) = run calc (run calc s xs) ys"
  by (simp add: run_def)

lemma run_Cons: "run calc s (ev # events) = run calc (step calc s ev) events"
  by (simp add: run_def)

lemma step_keeps_pending:
  assumes "single_flight s" "isLoading (hook s)" "\<not> is_settle ev"
  shows "pending (step calc s ev) = pending s \<and> isLoading (hook (step calc s ev))"
proof (cases ev)
  case (ClickAnalyze now)
  then show ?thesis using busy_click_ignored [OF assms(1,2)] assms(2) by simp
next
  case (Settle outcome now)
  then show ?thesis using assms(3) by simp
qed (use assms(2) in \<open>auto simp add: onLogPartial_def onLog_def handleStop_def\<close>)

lemma run_keeps_pending:
  "single_flight s \<Longrightarrow> isLoading (hook s) \<Longrightarrow> list_all (\<lambda>ev. \<not> is_settle ev) events \<Longrightarrow>
     pending (run calc s events) = pending s \<and> isLoading (hook (run calc s events))
     \<and> single_flight (run calc s events)"
proof (induction events arbitrary: s)
  case Nil
  then show ?case by (simp add: run_def)
next
  case (Cons ev events)
  from Cons.prems have ns: "\<not> is_settle ev" and rest: "list_all (\<lambda>ev. \<not> is_settle ev) events"
    by simp_all
  have k: "pending (step calc s ev) = pending s" "isLoading (hook (step calc s ev))"
    using step_keeps_pending [OF Cons.prems(1,2) ns] by simp_all
  have i: "single_flight (step calc s ev)" using Cons.prems(1) by (rule single_flight_step)
  from Cons.IH [OF i k(2) rest] k(1) show ?case by (simp add: run_Cons)
qed

lemma click_accepted:
  assumes "isInitialized (hook s)" "serviceRef (hook s)" "\<not> isLoading (hook s)"
  shows "click_analyze now s =
     s\<lparr>hook := (hook s)\<lparr>isLoading := True, analysisResult := None, analysisTime := None,
                         progress := None, tokenImpact := None, logs := []\<rparr>,
       worker := worker_analyze_begin (worker s),
       pending := pending s @
         [\<lparr>reqFilesInput = filesInput s, reqLogLevel = Debug,
           reqFormattingOptions = formattingOptions s,
           reqIncludePattern = includePattern s, reqExcludePattern = excludePattern s\<rparr>]\<rparr>"
  using assms by (simp add: click_analyze_def handleAnalyze_begin_def resetAnalysisState_def)

section \<open>The options the cost table is computed against\<close>

lemma sample_run_state:
  "run sampleImpact (initial_app [] sampleOptions)
     [InitResolved 0, ClickAnalyze 1, SetOptions (handleChange ''showIcons'' (Checked False)),
      Settle (Analyzed [sampleFile] 5) 2]
   = \<lparr>hook =
        \<lparr>isInitialized = True, isLoading = False,
         analysisResult = Some (sanitizeAnalysisResult [sampleFile]),
         progress = None, logs = [], analysisTime = Some 5,
         tokenImpact = Some (sampleImpact [sampleFile] sampleOptions), serviceRef = True\<rparr>,
      filesInput = [],
      formattingOptions = handleChange ''showIcons'' (Checked False) sampleOptions,
      includePattern = ''**/*'',
      excludePattern = [],
      worker = \<lparr>workerInitialized = True, abortController = None\<rparr>,
      pending = []\<rparr>"
  by (simp add: run_simps)

text \<open>
  Claim C3, as stated, fails: the user clears \<open>showIcons\<close> while the job runs; the job
  completes, and the cost table of the result is the one of the options at the request,
  which costs \<open>showIcons\<close> at one token, where the options of the completion time cost
  it at none.
\<close>

theorem impact_ignores_edit_during_run:
  "tokenImpact (hook (run sampleImpact (initial_app [] sampleOptions)
      [InitResolved 0, ClickAnalyze 1, SetOptions (handleChange ''showIcons'' (Checked False)),
       Settle (Analyzed [sampleFile] 5) 2]))
     = Some (sampleImpact [sampleFile] sampleOptions)
   \<and> groupTokenImpact
       (tokenImpact (hook (run sampleImpact (initial_app [] sampleOptions)
          [InitResolved 0, ClickAnalyze 1, SetOptions (handleChange ''showIcons'' (Checked False)),
           Settle (Analyzed [sampleFile] 5) 2])))
       (Leaf ''showIcons'') = Some 1
   \<and> groupTokenImpact
       (Some (sampleImpact [sampleFile]
          (formattingOptions (run sampleImpact (initial_app [] sampleOptions)
             [InitResolved 0, ClickAnalyze 1, SetOptions (handleChange ''showIcons'' (Checked False)),
              Settle (Analyzed [sampleFile] 5) 2]))))
       (Leaf ''showIcons'') = Some 0"
  unfolding sample_run_state
  by (simp add: groupTokenImpact_def sampleImpact_def sampleOptions_def isSelected_def
        handleChange_def)

text \<open>
  Claim C3, amended. When a run requested in a reachable, initialized and idle state
  completes with a result, whatever events other than a settlement came in between (edits
  of the options among them), the cost table stored with the result is computed against
  the options as they were when the run was requested, and the result stored is the
  sanitized one.
\<close>

theorem impact_uses_options_of_request:
  assumes "s = run calc (initial_app files opts) before"
    and "isInitialized (hook s)" and "\<not> isLoading (hook s)"
    and "list_all (\<lambda>ev. \<not> is_settle ev) during"
  shows "tokenImpact (hook (run calc s
            (ClickAnalyze t0 # during @ [Settle (Analyzed result time) t1])))
          = Some (calc result (formattingOptions s))
       \<and> analysisResult (hook (run calc s
            (ClickAnalyze t0 # during @ [Settle (Analyzed result time) t1])))
          = Some (sanitizeAnalysisResult result)"
proof -
  have inv: "single_flight s" using assms(1) by (simp add: single_flight_reachable)
  then have sr: "serviceRef (hook s)" and wi: "workerInitialized (worker s)"
    and pe: "pending s = []"
    using assms(2,3) by (simp_all add: single_flight_def)
  let ?req = "\<lparr>reqFilesInput = filesInput s, reqLogLevel = Debug,
           reqFormattingOptions = formattingOptions s,
           reqIncludePattern = includePattern s, reqExcludePattern = excludePattern s\<rparr>"
  let ?s1 = "step calc s (ClickAnalyze t0)"
  have s1: "pending ?s1 = [?req]" "isLoading (hook ?s1)"
    using click_accepted [OF assms(2) sr assms(3)] pe by simp_all
  have i1: "single_flight ?s1" using inv by (rule single_flight_step)
  let ?s2 = "run calc ?s1 during"
  have s2: "pending ?s2 = [?req]" "single_flight ?s2" "isLoading (hook ?s2)"
    using run_keeps_pending [OF i1 s1(2) assms(4)] s1(1) by simp_all
  then have w2: "workerInitialized (worker ?s2)" by (simp add: single_flight_def)
  have "run calc s (ClickAnalyze t0 # during @ [Settle (Analyzed result time) t1])
        = settle calc (Analyzed result time) t1 ?s2"
    by (simp add: run_Cons run_append) (simp add: run_def)
  then show ?thesis
    using s2(1) w2
    by (simp add: settle_def worker_analyze_end_def handleAnalyze_settle_def Let_def)
qed


theorem impact_uses_options_of_request_witness:
  "tokenImpact (hook (run sampleImpact (run sampleImpact (initial_app [] sampleOptions) [InitResolved 0])
      (ClickAnalyze 1 # [SetOptions (handleChange ''showIcons'' (Checked False)), WorkerProgress \<lparr>percentage = 50, progressMessage = ''Parsing''\<rparr>]
         @ [Settle (Analyzed [sampleFile] 5) 2])))
     = Some (sampleImpact [sampleFile] sampleOptions)"
proof -
  let ?s = "run sampleImpact (initial_app [] sampleOptions) [InitResolved 0]"
  have a: "isInitialized (hook ?s)" by (simp add: run_simps)
  have b: "\<not> isLoading (hook ?s)" by (simp add: run_simps)
  have c: "list_all (\<lambda>ev. \<not> is_settle ev)
             [SetOptions (handleChange ''showIcons'' (Checked False)), WorkerProgress \<lparr>percentage = 50, progressMessage = ''Parsing''\<rparr>]"
    by simp
  have d: "formattingOptions ?s = sampleOptions" by (simp add: run_simps)
  from impact_uses_options_of_request [OF refl a b c, of 1 "[sampleFile]" 5 2] d
  show ?thesis by simp
qed


section \<open>What an accepted request clears\<close>





end
